theory Spec2Isabelle
  imports Main
begin

section \<open>Data model (types/credentials.ts)\<close>

text \<open>
  \<^verbatim>\<open>CredentialSchema = z.object({ clientId: z.string(), apiKey: z.string() })\<close> and
  \<^verbatim>\<open>CredentialsFileSchema = z.object({ lastUpdated: z.string(), credentials: z.array(CredentialSchema) })\<close>.
  A zod object schema strips unknown keys, so a parsed value has exactly these fields.
  A JavaScript string is modelled as a \<^typ>\<open>string\<close>, one \<^typ>\<open>char\<close> per code unit;
  a \<^typ>\<open>char\<close> has 8 bits, so the model covers the strings whose code units are below
  256. The operations the code applies to strings (\<^verbatim>\<open>startsWith\<close>, \<^verbatim>\<open>slice\<close>,
  \<^verbatim>\<open>+\<close>, template literals) work code unit by code unit.
\<close>

record Credential =
  clientId :: string
  apiKey :: string

record CredentialsFile =
  lastUpdated :: string
  credentials :: "Credential list"

section \<open>Redaction codec (rewriteCredential.ts)\<close>

text \<open>\<^verbatim>\<open>s.startsWith(p)\<close>: the first \<open>length p\<close> code units of \<open>s\<close> are \<open>p\<close>.\<close>

definition startsWith :: "string \<Rightarrow> string \<Rightarrow> bool" where
  "startsWith s p = (take (length p) s = p)"

text \<open>
  \<^verbatim>\<open>s.slice(-k)\<close>: the start index is \<open>max (length s - k) 0\<close>, the end is the end of
  the string.
\<close>

definition slice_from_end :: "string \<Rightarrow> nat \<Rightarrow> string" where
  "slice_from_end s k =
     (let n = length s; start = (if n < k then 0 else n - k) in drop start s)"

text \<open>The test both \<^verbatim>\<open>storeCredential\<close> (line 48) and \<^verbatim>\<open>rewriteS3ObjectFile\<close> (line 142) apply to an API key.\<close>

definition isRedacted :: "string \<Rightarrow> bool" where
  "isRedacted key = startsWith key ''****''"

text \<open>The expression of line 92, \<^verbatim>\<open>'****' + credential.apiKey.slice(-4)\<close>.\<close>

definition maskApiKey :: "string \<Rightarrow> string" where
  "maskApiKey key = ''****'' @ slice_from_end key 4"

text \<open>\<^verbatim>\<open>redactCredential\<close>: a copy of the credential with the API key masked.\<close>

definition redactCredential :: "Credential \<Rightarrow> Credential" where
  "redactCredential credential = credential\<lparr>apiKey := maskApiKey (apiKey credential)\<rparr>"

section \<open>JSON encoding (\<^verbatim>\<open>JSON.stringify\<close>)\<close>

text \<open>
  \<^verbatim>\<open>JSON.stringify\<close> on a string: a double quote, the code units with the
  escapes of ECMAScript's QuoteJSONString, a double quote. The double quote is
  \<open>CHR 0x22\<close>, the backslash \<open>CHR 0x5C\<close>.
\<close>

definition hexDigit :: "nat \<Rightarrow> char" where
  "hexDigit n = ''0123456789abcdef'' ! (n mod 16)"

definition quoteChar :: "char \<Rightarrow> string" where
  "quoteChar c =
     (if c = CHR 0x22 then [CHR 0x5C, CHR 0x22]
      else if c = CHR 0x5C then [CHR 0x5C, CHR 0x5C]
      else if c = CHR 0x08 then [CHR 0x5C, CHR ''b'']
      else if c = CHR 0x0C then [CHR 0x5C, CHR ''f'']
      else if c = CHR 0x0A then [CHR 0x5C, CHR ''n'']
      else if c = CHR 0x0D then [CHR 0x5C, CHR ''r'']
      else if c = CHR 0x09 then [CHR 0x5C, CHR ''t'']
      else if (of_char c :: nat) < 0x20
        then [CHR 0x5C, CHR ''u'', CHR ''0'', CHR ''0'',
              hexDigit ((of_char c :: nat) div 16), hexDigit ((of_char c :: nat) mod 16)]
      else [c])"

definition JSON_quote :: "string \<Rightarrow> string" where
  "JSON_quote s = CHR 0x22 # concat (map quoteChar s) @ [CHR 0x22]"

text \<open>
  \<^verbatim>\<open>JSON.stringify(credential)\<close> (line 62): the compact form, keys in the order of
  the schema.
\<close>

definition JSON_stringify :: "Credential \<Rightarrow> string" where
  "JSON_stringify credential =
     ''{'' @ JSON_quote ''clientId'' @ '':'' @ JSON_quote (clientId credential) @ '','' @
     JSON_quote ''apiKey'' @ '':'' @ JSON_quote (apiKey credential) @ ''}''"

text \<open>
  \<^verbatim>\<open>JSON.stringify({ lastUpdated, credentials }, null, 2)\<close> (lines 150 to 157): the
  indented form, two spaces a level, \<open>lastUpdated\<close> first; an empty array is \<open>[]\<close>.
\<close>

fun joinWith :: "string \<Rightarrow> string list \<Rightarrow> string" where
  "joinWith sep [] = []"
| "joinWith sep [x] = x"
| "joinWith sep (x # y # ys) = x @ sep @ joinWith sep (y # ys)"

definition newline :: string where
  "newline = [CHR 0x0A]"

definition JSON_indent_credential :: "Credential \<Rightarrow> string" where
  "JSON_indent_credential credential =
     ''    {'' @ newline @
     ''      '' @ JSON_quote ''clientId'' @ '': '' @ JSON_quote (clientId credential) @ '','' @ newline @
     ''      '' @ JSON_quote ''apiKey'' @ '': '' @ JSON_quote (apiKey credential) @ newline @
     ''    }''"

definition JSON_stringify_indented :: "CredentialsFile \<Rightarrow> string" where
  "JSON_stringify_indented file =
     ''{'' @ newline @
     ''  '' @ JSON_quote ''lastUpdated'' @ '': '' @ JSON_quote (lastUpdated file) @ '','' @ newline @
     ''  '' @ JSON_quote ''credentials'' @ '': '' @
       (if credentials file = [] then ''[]''
        else ''['' @ newline @
             joinWith ('','' @ newline) (map JSON_indent_credential (credentials file)) @ newline @
             ''  ]'') @ newline @
     ''}''"

section \<open>The two stores and their clients\<close>

text \<open>
  The commands the code sends. \<^verbatim>\<open>PutParameterCommand\<close> carries Name, Value, Type and
  Overwrite; \<^verbatim>\<open>PutObjectCommand\<close> carries Bucket, Key and Body.
\<close>

datatype ssm_command =
  GetParameterCommand string
| PutParameterCommand string string string bool

datatype s3_command =
  PutObjectCommand string string string

text \<open>
  What a call can fail with: the parameter store has no such parameter (the spec's
  NotFoundError), a put without Overwrite meets an existing parameter, or the stored
  value does not pass \<^verbatim>\<open>CredentialSchema.parse(JSON.parse(...))\<close>.
\<close>

datatype error =
  ParameterNotFound
| ParameterAlreadyExists
| InvalidStoredCredential

text \<open>
  The state outside the function: the parameter store (name to value), the bucket
  contents (bucket and key to body), and the calls each client has received, oldest
  first. A call fails only for what the stores hold: faults of the network or of the
  service are outside the model.
\<close>

record world =
  ssm :: "string \<rightharpoonup> string"
  s3 :: "string \<times> string \<rightharpoonup> string"
  ssmCalls :: "ssm_command list"
  s3Calls :: "s3_command list"

text \<open>\<^verbatim>\<open>ssmClient.send(new GetParameterCommand({ Name }))\<close>, giving \<^verbatim>\<open>Parameter.Value\<close>.\<close>

definition getParameter :: "string \<Rightarrow> world \<Rightarrow> (error + string) \<times> world" where
  "getParameter name w =
     (let w' = w\<lparr>ssmCalls := ssmCalls w @ [GetParameterCommand name]\<rparr>
      in case ssm w name of
           None \<Rightarrow> (Inl ParameterNotFound, w')
         | Some v \<Rightarrow> (Inr v, w'))"

text \<open>\<^verbatim>\<open>ssmClient.send(new PutParameterCommand({ Name, Value, Type, Overwrite }))\<close>.\<close>

definition putParameter ::
  "string \<Rightarrow> string \<Rightarrow> string \<Rightarrow> bool \<Rightarrow> world \<Rightarrow> (error + unit) \<times> world" where
  "putParameter name v ty overwrite w =
     (let w' = w\<lparr>ssmCalls := ssmCalls w @ [PutParameterCommand name v ty overwrite]\<rparr>
      in if \<not> overwrite \<and> ssm w name \<noteq> None then (Inl ParameterAlreadyExists, w')
         else (Inr (), w'\<lparr>ssm := (ssm w)(name \<mapsto> v)\<rparr>))"

text \<open>\<^verbatim>\<open>s3Client.send(new PutObjectCommand({ Bucket, Key, Body }))\<close>.\<close>

definition putObject :: "string \<Rightarrow> string \<Rightarrow> string \<Rightarrow> world \<Rightarrow> world" where
  "putObject bucket key body w =
     w\<lparr>s3 := (s3 w)((bucket, key) \<mapsto> body),
       s3Calls := s3Calls w @ [PutObjectCommand bucket key body]\<rparr>"

section \<open>Reconciliation and rewrite (rewriteCredential.ts)\<close>

text \<open>
  \<^verbatim>\<open>CredentialSchema.parse(JSON.parse(value))\<close> is library code; the model takes it as a
  parameter \<open>parse\<close>, \<open>None\<close> where either call throws.
\<close>

type_synonym decoder = "string \<Rightarrow> Credential option"

definition parameterName :: "Credential \<Rightarrow> string" where
  "parameterName credential = ''/pii/'' @ clientId credential @ ''/credentials''"

text \<open>
  \<^verbatim>\<open>storeCredential\<close> (lines 45 to 69): a redacted key is looked up in the parameter
  store and the stored credential returned; any other key is written there and the
  credential returned as it came.
\<close>

definition storeCredential ::
  "decoder \<Rightarrow> Credential \<Rightarrow> world \<Rightarrow> (error + Credential) \<times> world" where
  "storeCredential parse credential w =
     (if isRedacted (apiKey credential) then
        (case getParameter (parameterName credential) w of
           (Inl e, w') \<Rightarrow> (Inl e, w')
         | (Inr v, w') \<Rightarrow>
             (case parse v of
                None \<Rightarrow> (Inl InvalidStoredCredential, w')
              | Some stored \<Rightarrow> (Inr stored, w')))
      else
        (case putParameter (parameterName credential) (JSON_stringify credential) ''String'' True w of
           (Inl e, w') \<Rightarrow> (Inl e, w')
         | (Inr _, w') \<Rightarrow> (Inr credential, w')))"

text \<open>
  \<^verbatim>\<open>credentials.map((cred) => storeCredential(cred))\<close> (line 137) starts one call per
  entry, in the order of the entries, and none is cancelled when another fails. The
  model runs them one after the other in that order, each on the store the previous one
  left, and keeps every outcome. The order in which the parameter store serves
  concurrent calls matters only when two entries name the same client; the statements
  below that depend on it assume distinct client ids, as the data model of the spec
  does.
\<close>

fun storeCredentials ::
  "decoder \<Rightarrow> Credential list \<Rightarrow> world \<Rightarrow> (error + Credential) list \<times> world" where
  "storeCredentials parse [] w = ([], w)"
| "storeCredentials parse (cred # creds) w =
     (let (r, w') = storeCredential parse cred w;
          (rs, w'') = storeCredentials parse creds w'
      in (r # rs, w''))"

text \<open>
  \<^verbatim>\<open>Promise.all\<close> (line 136): the values in order when every promise fulfils, the
  reason of the first rejection otherwise; in the sequential model the first rejection
  is the first in the list.
\<close>

fun Promise_all :: "(error + 'a) list \<Rightarrow> error + 'a list" where
  "Promise_all [] = Inr []"
| "Promise_all (Inl e # rs) = Inl e"
| "Promise_all (Inr x # rs) = (case Promise_all rs of Inl e \<Rightarrow> Inl e | Inr xs \<Rightarrow> Inr (x # xs))"

text \<open>The test of line 142: some input entry is not redacted.\<close>

definition anyPlaintext :: "CredentialsFile \<Rightarrow> bool" where
  "anyPlaintext credentialsFile =
     list_ex (\<lambda>cred. \<not> isRedacted (apiKey cred)) (credentials credentialsFile)"

text \<open>
  \<^verbatim>\<open>rewriteS3ObjectFile\<close> (lines 129 to 166). \<open>bucketName\<close> is
  \<^verbatim>\<open>EnvironmentVariables.BUCKET_NAME\<close> and \<open>now\<close> what
  \<^verbatim>\<open>new Date().toISOString()\<close> returns. The credentials written to the bucket are the
  redacted input entries (line 144 maps over \<^verbatim>\<open>credentialsFile.credentials\<close>); the
  credentials returned are the stored ones.
\<close>

definition rewriteS3ObjectFile ::
  "decoder \<Rightarrow> string \<Rightarrow> string \<Rightarrow> CredentialsFile \<Rightarrow> string \<Rightarrow> world \<Rightarrow>
     (error + CredentialsFile) \<times> world" where
  "rewriteS3ObjectFile parse bucketName now credentialsFile key w =
     (let (outcomes, w1) = storeCredentials parse (credentials credentialsFile) w
      in case Promise_all outcomes of
           Inl e \<Rightarrow> (Inl e, w1)
         | Inr stored \<Rightarrow>
             (let updatedCredentialsFile = credentialsFile\<lparr>credentials := stored\<rparr>
              in if anyPlaintext credentialsFile then
                   (let redacted = map redactCredential (credentials credentialsFile);
                        body = JSON_stringify_indented \<lparr>lastUpdated = now, credentials = redacted\<rparr>;
                        w2 = putObject bucketName key body w1
                    in (Inr (updatedCredentialsFile\<lparr>lastUpdated := now\<rparr>), w2))
                 else (Inr updatedCredentialsFile, w1)))"

section \<open>Vocabulary of the statements\<close>

text \<open>The call \<open>storeCredential\<close> sends for an entry.\<close>

definition commandFor :: "Credential \<Rightarrow> ssm_command" where
  "commandFor credential =
     (if isRedacted (apiKey credential) then GetParameterCommand (parameterName credential)
      else PutParameterCommand (parameterName credential) (JSON_stringify credential)
             ''String'' True)"

text \<open>The credential the parameter store holds for an entry, if it holds a valid one.\<close>

definition storedCredential :: "decoder \<Rightarrow> world \<Rightarrow> Credential \<Rightarrow> Credential option" where
  "storedCredential parse w credential =
     (case ssm w (parameterName credential) of
        None \<Rightarrow> None
      | Some v \<Rightarrow> parse v)"

section \<open>A decoder for the compact form\<close>

text \<open>
  A decoder to run the model with: it reads exactly the text \<open>JSON_stringify\<close>
  writes (no white space, \<open>clientId\<close> then \<open>apiKey\<close>, four-digit escapes starting 00)
  and gives the credential \<^verbatim>\<open>JSON.parse\<close> and the schema give on that text. Any
  other text is \<open>None\<close> here, also where \<^verbatim>\<open>JSON.parse\<close> accepts it (white space,
  other key orders, extra keys), so the general theorems are stated for every decoder
  and this one only serves the concrete runs.
\<close>

definition hexValue :: "char \<Rightarrow> nat option" where
  "hexValue c =
     (let n = (of_char c :: nat) in
      if 0x30 \<le> n \<and> n \<le> 0x39 then Some (n - 0x30)
      else if 0x61 \<le> n \<and> n \<le> 0x66 then Some (n - 0x61 + 10)
      else if 0x41 \<le> n \<and> n \<le> 0x46 then Some (n - 0x41 + 10)
      else None)"

text \<open>
  The characters of a JSON string after its opening quote, up to the closing quote:
  the decoded string and the rest of the input.
\<close>

fun unquote :: "string \<Rightarrow> (string \<times> string) option" where
  "unquote [] = None"
| "unquote (c # cs) =
     (if c = CHR 0x22 then Some ([], cs)
      else if c = CHR 0x5C then
        (case cs of
           [] \<Rightarrow> None
         | e # rest \<Rightarrow>
             (if e = CHR ''u'' then
                (case rest of
                   a # b # h # l # rest' \<Rightarrow>
                     (if a = CHR ''0'' \<and> b = CHR ''0'' then
                        (case (hexValue h, hexValue l, unquote rest') of
                           (Some x, Some y, Some (s, r)) \<Rightarrow> Some (char_of (16 * x + y) # s, r)
                         | _ \<Rightarrow> None)
                      else None)
                 | _ \<Rightarrow> None)
              else
                (case (if e = CHR 0x22 then Some (CHR 0x22)
                       else if e = CHR 0x5C then Some (CHR 0x5C)
                       else if e = CHR ''/'' then Some (CHR ''/'')
                       else if e = CHR ''b'' then Some (CHR 0x08)
                       else if e = CHR ''f'' then Some (CHR 0x0C)
                       else if e = CHR ''n'' then Some (CHR 0x0A)
                       else if e = CHR ''r'' then Some (CHR 0x0D)
                       else if e = CHR ''t'' then Some (CHR 0x09)
                       else None, unquote rest) of
                   (Some d, Some (s, r)) \<Rightarrow> Some (d # s, r)
                 | _ \<Rightarrow> None)))
      else if (of_char c :: nat) < 0x20 then None
      else (case unquote cs of
              None \<Rightarrow> None
            | Some (s, r) \<Rightarrow> Some (c # s, r)))"

definition expect :: "string \<Rightarrow> string \<Rightarrow> string option" where
  "expect p s = (if startsWith s p then Some (drop (length p) s) else None)"

definition parseCompact :: decoder where
  "parseCompact text =
     (case expect (''{'' @ JSON_quote ''clientId'' @ '':'' @ [CHR 0x22]) text of
        None \<Rightarrow> None
      | Some r1 \<Rightarrow>
          (case unquote r1 of
             None \<Rightarrow> None
           | Some (cid, r2) \<Rightarrow>
               (case expect ('','' @ JSON_quote ''apiKey'' @ '':'' @ [CHR 0x22]) r2 of
                  None \<Rightarrow> None
                | Some r3 \<Rightarrow>
                    (case unquote r3 of
                       None \<Rightarrow> None
                     | Some (key, r4) \<Rightarrow>
                         (if r4 = ''}'' then Some \<lparr>clientId = cid, apiKey = key\<rparr>
                          else None)))))"

section \<open>Sample documents and stores\<close>

text \<open>Both stores empty, no call made yet.\<close>

definition emptyWorld :: world where
  "emptyWorld = \<lparr>ssm = Map.empty, s3 = Map.empty, ssmCalls = [], s3Calls = []\<rparr>"

text \<open>A parameter store holding the given raw values.\<close>

definition worldWith :: "(string \<times> string) list \<Rightarrow> world" where
  "worldWith params = emptyWorld\<lparr>ssm := map_of params\<rparr>"

text \<open>
  The parameter store for the example of the doc comment: the full credential of
  \<open>client-1\<close>, as the doc comment of \<^verbatim>\<open>storeCredential\<close> has it.
\<close>

definition docExampleWorld :: world where
  "docExampleWorld =
     worldWith
       [(''/pii/client-1/credentials'',
           JSON_stringify \<lparr>clientId = ''client-1'', apiKey = ''sk_live_abc123xyz''\<rparr>)]"

text \<open>
  A parameter store whose record for \<open>client-1\<close> is the bare key, which is not JSON,
  and which has no record for \<open>client-2\<close>.
\<close>

definition rawKeyWorld :: world where
  "rawKeyWorld = worldWith [(''/pii/client-1/credentials'', ''sk_live_abc123xyz'')]"

text \<open>A text between double quotes, to write the expected JSON.\<close>

definition quoted :: "string \<Rightarrow> string" where
  "quoted s = CHR 0x22 # s @ [CHR 0x22]"

text \<open>The example of the doc comment of \<^verbatim>\<open>rewriteS3ObjectFile\<close> (lines 117 to 126).\<close>

definition docExampleFile :: CredentialsFile where
  "docExampleFile =
     \<lparr>lastUpdated = ''2025-10-23T12:00:00Z'',
      credentials = [\<lparr>clientId = ''client-1'', apiKey = ''****xyz''\<rparr>,
                     \<lparr>clientId = ''client-2'', apiKey = ''sk_live_newkey123''\<rparr>]\<rparr>"

text \<open>The documents of the test suite: plain text, redacted, mixed.\<close>

definition plainFile :: CredentialsFile where
  "plainFile =
     \<lparr>lastUpdated = ''2025-10-23T12:00:00Z'',
      credentials = [\<lparr>clientId = ''client-1'', apiKey = ''sk_live_abc123xyz''\<rparr>,
                     \<lparr>clientId = ''client-2'', apiKey = ''sk_test_def456uvw''\<rparr>]\<rparr>"

definition redactedFile :: CredentialsFile where
  "redactedFile =
     \<lparr>lastUpdated = ''2025-10-23T12:00:00Z'',
      credentials = [\<lparr>clientId = ''client-1'', apiKey = ''****3xyz''\<rparr>,
                     \<lparr>clientId = ''client-2'', apiKey = ''****6uvw''\<rparr>]\<rparr>"

definition mixedFile :: CredentialsFile where
  "mixedFile =
     \<lparr>lastUpdated = ''2025-10-23T12:00:00Z'',
      credentials = [\<lparr>clientId = ''client-1'', apiKey = ''****3xyz''\<rparr>,
                     \<lparr>clientId = ''client-2'', apiKey = ''sk_test_def456uvw''\<rparr>]\<rparr>"

text \<open>A document outside the data model: the same client twice, plain text then redacted.\<close>

definition duplicateFile :: CredentialsFile where
  "duplicateFile =
     \<lparr>lastUpdated = ''2025-10-23T12:00:00Z'',
      credentials = [\<lparr>clientId = ''client-1'', apiKey = ''sk_live_abc123xyz''\<rparr>,
                     \<lparr>clientId = ''client-1'', apiKey = ''****3xyz''\<rparr>]\<rparr>"

text \<open>The parameter store after \<open>plainFile\<close> has been reconciled once.\<close>

definition storedWorld :: world where
  "storedWorld =
     worldWith
       [(''/pii/client-1/credentials'',
           JSON_stringify \<lparr>clientId = ''client-1'', apiKey = ''sk_live_abc123xyz''\<rparr>),
        (''/pii/client-2/credentials'',
           JSON_stringify \<lparr>clientId = ''client-2'', apiKey = ''sk_test_def456uvw''\<rparr>)]"

text \<open>
  A run of the model on a sample: the compact decoder, the bucket of the test suite, a
  fixed reading of the clock and the key of the test suite.
\<close>

definition sampleRun :: "CredentialsFile \<Rightarrow> world \<Rightarrow> (error + CredentialsFile) \<times> world" where
  "sampleRun f w =
     rewriteS3ObjectFile parseCompact ''test-bucket'' ''2025-10-24T08:30:00.000Z'' f
       ''test-key.json'' w"

section \<open>Properties of the codec\<close>

lemma slice_from_end_long:
  "k \<le> length s \<Longrightarrow> slice_from_end s k = drop (length s - k) s"
  by (simp add: slice_from_end_def Let_def)

lemma slice_from_end_short:
  "length s < k \<Longrightarrow> slice_from_end s k = s"
  by (simp add: slice_from_end_def Let_def)

lemma length_slice_from_end:
  "length (slice_from_end s k) = min (length s) k"
  by (simp add: slice_from_end_def Let_def)

lemma slice_from_end_append:
  "length t = k \<Longrightarrow> slice_from_end (p @ t) k = t"
  by (simp add: slice_from_end_def Let_def)

text \<open>
  C5. For a secret of at least 4 characters the masked value is the marker \<open>****\<close>
  followed by exactly its last 4 characters; for a shorter secret it is the marker
  followed by the whole secret (so a 1-character secret gives the marker and that
  character).
\<close>

theorem mask_reveals_last_four:
  "(4 \<le> length s \<longrightarrow>
      maskApiKey s = ''****'' @ drop (length s - 4) s \<and> length (drop (length s - 4) s) = 4) \<and>
   (length s < 4 \<longrightarrow> maskApiKey s = ''****'' @ s) \<and>
   maskApiKey [c] = ''****'' @ [c]"
  by (simp add: maskApiKey_def slice_from_end_def Let_def)

theorem mask_reveals_last_four_witness:
  "4 \<le> length ''sk_live_abc123xyz'' \<and> maskApiKey ''sk_live_abc123xyz'' = ''****3xyz'' \<and>
   length ''abc'' < 4 \<and> maskApiKey ''abc'' = ''****abc'' \<and> maskApiKey ''a'' = ''****a''"
  using mask_reveals_last_four [of "''sk_live_abc123xyz''" "CHR ''a''"]
    mask_reveals_last_four [of "''abc''" "CHR ''a''"]
  by simp

text \<open>
  C9. Masking any value, the empty string included, gives a value that the
  masked-detection test accepts.
\<close>

theorem isRedacted_mask: "isRedacted (maskApiKey s)"
  by (simp add: isRedacted_def maskApiKey_def startsWith_def)

text \<open>
  C10. Masking is idempotent exactly from length 4 on: a secret of at least 4 characters
  is masked to a fixed point of \<open>maskApiKey\<close>, and for a non-empty secret of fewer than 4
  characters masking the masked value gives a different (longer) value, as in
  \<open>maskApiKey ''ab'' = ''****ab''\<close> and \<open>maskApiKey ''****ab'' = ''******ab''\<close>.
\<close>

theorem mask_idempotent_iff_long:
  "(4 \<le> length s \<longrightarrow> maskApiKey (maskApiKey s) = maskApiKey s) \<and>
   (s \<noteq> [] \<and> length s < 4 \<longrightarrow> maskApiKey (maskApiKey s) \<noteq> maskApiKey s) \<and>
   maskApiKey ''ab'' = ''****ab'' \<and> maskApiKey ''****ab'' = ''******ab''"
proof (intro conjI impI)
  assume long: "4 \<le> length s"
  have "length (drop (length s - 4) s) = 4" using long by simp
  then have "slice_from_end (''****'' @ drop (length s - 4) s) 4 = drop (length s - 4) s"
    by (rule slice_from_end_append)
  then show "maskApiKey (maskApiKey s) = maskApiKey s"
    using long by (simp add: maskApiKey_def slice_from_end_long)
next
  assume short: "s \<noteq> [] \<and> length s < 4"
  have "length (maskApiKey (maskApiKey s)) = 8"
    using short by (simp add: maskApiKey_def length_slice_from_end)
  moreover have "length (maskApiKey s) < 8"
    using short by (simp add: maskApiKey_def length_slice_from_end)
  ultimately show "maskApiKey (maskApiKey s) \<noteq> maskApiKey s" by auto
next
  show "maskApiKey ''ab'' = ''****ab''"
    by (simp add: maskApiKey_def slice_from_end_def Let_def)
next
  show "maskApiKey ''****ab'' = ''******ab''"
    by (simp add: maskApiKey_def slice_from_end_def Let_def)
qed

theorem mask_idempotent_iff_long_witness:
  "4 \<le> length ''abcde'' \<and> maskApiKey (maskApiKey ''abcde'') = maskApiKey ''abcde'' \<and>
   ''a'' \<noteq> [] \<and> length ''a'' < 4 \<and> maskApiKey (maskApiKey ''a'') \<noteq> maskApiKey ''a''"
  using mask_idempotent_iff_long [of "''abcde''"] mask_idempotent_iff_long [of "''a''"]
  by simp

section \<open>The calls of a reconciliation\<close>

lemma parameterName_eq_iff:
  "parameterName p = parameterName q \<longleftrightarrow> clientId p = clientId q"
  by (simp add: parameterName_def)

lemma storeCredential_redacted:
  "isRedacted (apiKey c) \<Longrightarrow>
   storeCredential parse c w =
     ((case ssm w (parameterName c) of
         None \<Rightarrow> Inl ParameterNotFound
       | Some v \<Rightarrow> (case parse v of None \<Rightarrow> Inl InvalidStoredCredential | Some stored \<Rightarrow> Inr stored)),
      w\<lparr>ssmCalls := ssmCalls w @ [GetParameterCommand (parameterName c)]\<rparr>)"
  by (simp add: storeCredential_def getParameter_def Let_def split: option.splits)

lemma storeCredential_plaintext:
  "\<not> isRedacted (apiKey c) \<Longrightarrow>
   storeCredential parse c w =
     (Inr c,
      w\<lparr>ssmCalls := ssmCalls w @
            [PutParameterCommand (parameterName c) (JSON_stringify c) ''String'' True],
        ssm := (ssm w)(parameterName c \<mapsto> JSON_stringify c)\<rparr>)"
  by (simp add: storeCredential_def putParameter_def Let_def)

lemma storeCredential_outcome:
  "fst (storeCredential parse c w) =
     (if isRedacted (apiKey c) then
        (case ssm w (parameterName c) of
           None \<Rightarrow> Inl ParameterNotFound
         | Some v \<Rightarrow> (case parse v of None \<Rightarrow> Inl InvalidStoredCredential | Some stored \<Rightarrow> Inr stored))
      else Inr c)"
  by (simp add: storeCredential_redacted storeCredential_plaintext)

lemma storeCredential_s3 [simp]:
  "s3 (snd (storeCredential parse c w)) = s3 w"
  "s3Calls (snd (storeCredential parse c w)) = s3Calls w"
  by (cases "isRedacted (apiKey c)"; simp add: storeCredential_redacted storeCredential_plaintext)+

lemma storeCredentials_s3 [simp]:
  "s3 (snd (storeCredentials parse cs w)) = s3 w"
  "s3Calls (snd (storeCredentials parse cs w)) = s3Calls w"
  by (induction cs arbitrary: w; simp add: split_beta Let_def)+

lemma length_storeCredentials [simp]:
  "length (fst (storeCredentials parse cs w)) = length cs"
  by (induction cs arbitrary: w) (simp_all add: split_beta Let_def)

lemma storeCredentials_append:
  "storeCredentials parse (xs @ ys) w =
     (fst (storeCredentials parse xs w) @
        fst (storeCredentials parse ys (snd (storeCredentials parse xs w))),
      snd (storeCredentials parse ys (snd (storeCredentials parse xs w))))"
  by (induction xs arbitrary: w) (simp_all add: split_beta Let_def)

lemma storeCredentials_nth:
  "i < length cs \<Longrightarrow>
   fst (storeCredentials parse cs w) ! i =
     fst (storeCredential parse (cs ! i) (snd (storeCredentials parse (take i cs) w)))"
proof (induction cs arbitrary: i w)
  case Nil
  then show ?case by simp
next
  case (Cons c cs)
  show ?case
  proof (cases i)
    case 0
    then show ?thesis by (simp add: split_beta Let_def)
  next
    case (Suc j)
    with Cons.prems have "j < length cs" by simp
    from Cons.IH [OF this] show ?thesis using Suc by (simp add: split_beta Let_def)
  qed
qed

lemma storeCredential_ssmCalls:
  "ssmCalls (snd (storeCredential parse c w)) = ssmCalls w @ [commandFor c]"
  by (cases "isRedacted (apiKey c)")
     (simp_all add: storeCredential_redacted storeCredential_plaintext commandFor_def)

lemma storeCredentials_ssmCalls:
  "ssmCalls (snd (storeCredentials parse cs w)) = ssmCalls w @ map commandFor cs"
  by (induction cs arbitrary: w) (simp_all add: split_beta Let_def storeCredential_ssmCalls)

lemma Promise_all_map_Inr:
  "Promise_all (map Inr xs) = Inr xs"
  by (induction xs) simp_all

lemma Promise_all_Inr_D:
  "Promise_all rs = Inr xs \<Longrightarrow> rs = map Inr xs"
proof (induction rs arbitrary: xs)
  case Nil
  then show ?case by simp
next
  case (Cons r rs)
  show ?case
  proof (cases r)
    case (Inl e)
    with Cons.prems show ?thesis by simp
  next
    case (Inr x)
    with Cons.prems obtain ys where ys: "Promise_all rs = Inr ys" and xs: "xs = x # ys"
      by (auto split: sum.splits)
    from Cons.IH [OF ys] show ?thesis using Inr xs by simp
  qed
qed

lemma Promise_all_Inl_mem:
  "Promise_all rs = Inl e \<Longrightarrow> Inl e \<in> set rs"
  by (induction rs rule: Promise_all.induct) (auto split: sum.splits)

lemma Promise_all_fails:
  "Inl e \<in> set rs \<Longrightarrow> \<exists>e'. Promise_all rs = Inl e'"
  by (induction rs rule: Promise_all.induct) (auto split: sum.splits)

section \<open>The compact decoder reads what \<open>JSON_stringify\<close> writes\<close>

lemma hexValue_hexDigit: "k < 16 \<Longrightarrow> hexValue (hexDigit k) = Some k"
proof -
  assume "k < 16"
  then have "k \<in> {0, 1, 2, 3, 4, 5, 6, 7, 8, 9, 10, 11, 12, 13, 14, 15}" by simp arith
  then show ?thesis
    by (auto simp: hexDigit_def hexValue_def Let_def)
qed

lemma unquote_quoteChar:
  assumes "unquote rest = Some (s, r)"
  shows "unquote (quoteChar c @ rest) = Some (c # s, r)"
proof -
  consider (esc) "c \<in> {CHR 0x22, CHR 0x5C, CHR 0x08, CHR 0x0C, CHR 0x0A, CHR 0x0D, CHR 0x09}"
    | (ctl) "c \<notin> {CHR 0x22, CHR 0x5C, CHR 0x08, CHR 0x0C, CHR 0x0A, CHR 0x0D, CHR 0x09}" "(of_char c :: nat) < 0x20"
    | (plain) "c \<notin> {CHR 0x22, CHR 0x5C, CHR 0x08, CHR 0x0C, CHR 0x0A, CHR 0x0D, CHR 0x09}" "\<not> (of_char c :: nat) < 0x20"
    by blast
  then show ?thesis
  proof cases
    case esc
    then show ?thesis using assms by (auto simp: quoteChar_def)
  next
    case ctl
    have d: "(of_char c :: nat) div 16 < 16" using ctl(2) by simp
    have m: "(of_char c :: nat) mod 16 < 16" by simp
    show ?thesis using assms ctl
      by (simp add: quoteChar_def hexValue_hexDigit [OF d] hexValue_hexDigit [OF m])
  next
    case plain
    then show ?thesis using assms by (simp add: quoteChar_def)
  qed
qed

lemma unquote_quoted:
  "unquote (concat (map quoteChar s) @ CHR 0x22 # rest) = Some (s, rest)"
proof (induction s)
  case Nil
  show ?case by simp
next
  case (Cons c s)
  from unquote_quoteChar [OF Cons.IH, of c] show ?case by simp
qed

lemma expect_prefix: "expect p (p @ rest) = Some rest"
  by (simp add: expect_def startsWith_def)

lemma parseCompact_JSON_stringify: "parseCompact (JSON_stringify c) = Some c"
proof -
  let ?p1 = "''{'' @ JSON_quote ''clientId'' @ '':'' @ [CHR 0x22]"
  let ?p2 = "'','' @ JSON_quote ''apiKey'' @ '':'' @ [CHR 0x22]"
  let ?t2 = "concat (map quoteChar (apiKey c)) @ CHR 0x22 # ''}''"
  let ?t1 = "concat (map quoteChar (clientId c)) @ CHR 0x22 # (?p2 @ ?t2)"
  have shape: "JSON_stringify c = ?p1 @ ?t1"
    by (simp add: JSON_stringify_def JSON_quote_def)
  have s1: "expect ?p1 (JSON_stringify c) = Some ?t1"
    unfolding shape by (rule expect_prefix)
  have s2: "unquote ?t1 = Some (clientId c, ?p2 @ ?t2)"
    by (rule unquote_quoted)
  have s3: "expect ?p2 (?p2 @ ?t2) = Some ?t2"
    by (rule expect_prefix)
  have s4: "unquote ?t2 = Some (apiKey c, ''}'')"
    by (rule unquote_quoted)
  show ?thesis
    unfolding parseCompact_def s1 option.case s2 prod.case s3 s4 by simp
qed

section \<open>What a reconciliation does to the stores\<close>

lemma rewriteS3ObjectFile_unfold:
  "rewriteS3ObjectFile parse b now f key w =
     (case Promise_all (fst (storeCredentials parse (credentials f) w)) of
        Inl e \<Rightarrow> (Inl e, snd (storeCredentials parse (credentials f) w))
      | Inr stored \<Rightarrow>
          if anyPlaintext f then
            (Inr \<lparr>lastUpdated = now, credentials = stored\<rparr>,
             putObject b key
               (JSON_stringify_indented
                  \<lparr>lastUpdated = now, credentials = map redactCredential (credentials f)\<rparr>)
               (snd (storeCredentials parse (credentials f) w)))
          else (Inr (f\<lparr>credentials := stored\<rparr>), snd (storeCredentials parse (credentials f) w)))"
  by (simp add: rewriteS3ObjectFile_def split_beta Let_def split: sum.splits)

lemma rewrite_ssmCalls:
  "ssmCalls (snd (rewriteS3ObjectFile parse b now f key w)) =
     ssmCalls w @ map commandFor (credentials f)"
  by (simp add: rewriteS3ObjectFile_unfold putObject_def storeCredentials_ssmCalls
      split: sum.splits)

lemma rewrite_ssm:
  "ssm (snd (rewriteS3ObjectFile parse b now f key w)) =
     ssm (snd (storeCredentials parse (credentials f) w))"
  by (simp add: rewriteS3ObjectFile_unfold putObject_def split: sum.splits)

lemma rewrite_error_s3:
  "fst (rewriteS3ObjectFile parse b now f key w) = Inl e \<Longrightarrow>
   s3Calls (snd (rewriteS3ObjectFile parse b now f key w)) = s3Calls w \<and>
   s3 (snd (rewriteS3ObjectFile parse b now f key w)) = s3 w"
  by (simp add: rewriteS3ObjectFile_unfold split: sum.splits if_splits)

lemma rewrite_masked_s3:
  "\<not> anyPlaintext f \<Longrightarrow>
   s3Calls (snd (rewriteS3ObjectFile parse b now f key w)) = s3Calls w \<and>
   s3 (snd (rewriteS3ObjectFile parse b now f key w)) = s3 w"
  by (simp add: rewriteS3ObjectFile_unfold split: sum.splits)

lemma rewrite_plaintext_s3:
  "anyPlaintext f \<Longrightarrow> fst (rewriteS3ObjectFile parse b now f key w) = Inr out \<Longrightarrow>
   s3Calls (snd (rewriteS3ObjectFile parse b now f key w)) =
     s3Calls w @ [PutObjectCommand b key
        (JSON_stringify_indented
           \<lparr>lastUpdated = now, credentials = map redactCredential (credentials f)\<rparr>)] \<and>
   lastUpdated out = now"
  by (auto simp add: rewriteS3ObjectFile_unfold putObject_def split: sum.splits)

lemma rewrite_masked_result:
  "\<not> anyPlaintext f \<Longrightarrow> fst (rewriteS3ObjectFile parse b now f key w) = Inr out \<Longrightarrow>
   lastUpdated out = lastUpdated f"
  by (auto simp add: rewriteS3ObjectFile_unfold split: sum.splits)

lemma rewrite_result_credentials:
  "fst (rewriteS3ObjectFile parse b now f key w) = Inr out \<Longrightarrow>
   fst (storeCredentials parse (credentials f) w) = map Inr (credentials out)"
  by (auto simp add: rewriteS3ObjectFile_unfold split: sum.splits if_splits
      dest: Promise_all_Inr_D)

lemma anyPlaintext_iff:
  "anyPlaintext f \<longleftrightarrow> (\<exists>c \<in> set (credentials f). \<not> isRedacted (apiKey c))"
  by (simp add: anyPlaintext_def list_ex_iff)

section \<open>The parameter store during a reconciliation\<close>

lemma storeCredentials_ssm_frame:
  "\<forall>p \<in> set cs. \<not> isRedacted (apiKey p) \<longrightarrow> parameterName p \<noteq> n \<Longrightarrow>
   ssm (snd (storeCredentials parse cs w)) n = ssm w n"
proof (induction cs arbitrary: w)
  case Nil
  show ?case by simp
next
  case (Cons a cs)
  have step: "ssm (snd (storeCredential parse a w)) n = ssm w n"
    using Cons.prems
    by (cases "isRedacted (apiKey a)")
       (auto simp add: storeCredential_redacted storeCredential_plaintext)
  have "ssm (snd (storeCredentials parse cs (snd (storeCredential parse a w)))) n =
        ssm (snd (storeCredential parse a w)) n"
    using Cons.prems by (intro Cons.IH) simp
  then show ?case using step by (simp add: split_beta Let_def)
qed

lemma storeCredentials_ssm_redacted:
  "\<forall>p \<in> set cs. isRedacted (apiKey p) \<Longrightarrow> ssm (snd (storeCredentials parse cs w)) = ssm w"
  by (rule ext, rule storeCredentials_ssm_frame) simp

lemma distinct_clientId_separates:
  assumes "distinct (map clientId cs)" and "p \<in> set cs" and "q \<in> set cs"
    and "\<not> isRedacted (apiKey p)" and "isRedacted (apiKey q)"
  shows "parameterName p \<noteq> parameterName q"
proof
  assume "parameterName p = parameterName q"
  then have "clientId p = clientId q" by (simp add: parameterName_eq_iff)
  moreover have "inj_on clientId (set cs)" using assms(1) by (simp add: distinct_map)
  ultimately have "p = q" using assms(2,3) by (auto dest: inj_onD)
  with assms(4,5) show False by simp
qed

lemma storeCredentials_before_frame:
  assumes "distinct (map clientId cs)" and "i < length cs" and "isRedacted (apiKey (cs ! i))"
  shows "ssm (snd (storeCredentials parse (take i cs) w)) (parameterName (cs ! i)) =
         ssm w (parameterName (cs ! i))"
proof (rule storeCredentials_ssm_frame, intro ballI impI)
  fix p assume p: "p \<in> set (take i cs)" and plain: "\<not> isRedacted (apiKey p)"
  from p have "p \<in> set cs" by (rule in_set_takeD)
  moreover have "cs ! i \<in> set cs" using assms(2) by simp
  ultimately show "parameterName p \<noteq> parameterName (cs ! i)"
    using assms(1,3) plain by (intro distinct_clientId_separates [of cs])
qed

lemma storeCredentials_ssm_last:
  assumes "distinct (map clientId cs)" and "c \<in> set cs" and "\<not> isRedacted (apiKey c)"
  shows "ssm (snd (storeCredentials parse cs w)) (parameterName c) = Some (JSON_stringify c)"
  using assms
proof (induction cs arbitrary: w)
  case Nil
  then show ?case by simp
next
  case (Cons a cs)
  show ?case
  proof (cases "c = a")
    case True
    have "\<forall>p \<in> set cs. \<not> isRedacted (apiKey p) \<longrightarrow> parameterName p \<noteq> parameterName c"
      using Cons.prems(1) True by (force simp: parameterName_eq_iff image_iff)
    then have "ssm (snd (storeCredentials parse cs (snd (storeCredential parse a w)))) (parameterName c) =
        ssm (snd (storeCredential parse a w)) (parameterName c)"
      by (rule storeCredentials_ssm_frame)
    then show ?thesis
      using True Cons.prems(3) by (simp add: split_beta Let_def storeCredential_plaintext)
  next
    case False
    with Cons.prems have "c \<in> set cs" "distinct (map clientId cs)" by simp_all
    from Cons.IH [OF this(2,1) Cons.prems(3)] show ?thesis
      by (simp add: split_beta Let_def)
  qed
qed

lemma storeCredentials_ssm_changed:
  "ssm (snd (storeCredentials parse cs w)) n = ssm w n \<or>
   (\<exists>c \<in> set cs. \<not> isRedacted (apiKey c) \<and> n = parameterName c \<and>
      ssm (snd (storeCredentials parse cs w)) n = Some (JSON_stringify c))"
proof (induction cs arbitrary: w)
  case Nil
  show ?case by simp
next
  case (Cons a cs)
  let ?w1 = "snd (storeCredential parse a w)"
  let ?w2 = "snd (storeCredentials parse cs ?w1)"
  have final: "snd (storeCredentials parse (a # cs) w) = ?w2"
    by (simp add: split_beta Let_def)
  from Cons.IH [of ?w1] consider
      (same) "ssm ?w2 n = ssm ?w1 n"
    | (later) c where "c \<in> set cs" "\<not> isRedacted (apiKey c)" "n = parameterName c"
        "ssm ?w2 n = Some (JSON_stringify c)"
    by blast
  then show ?case
  proof cases
    case same
    show ?thesis
    proof (cases "\<not> isRedacted (apiKey a) \<and> n = parameterName a")
      case True
      then have "ssm ?w1 n = Some (JSON_stringify a)"
        by (simp add: storeCredential_plaintext)
      with same True show ?thesis unfolding final by auto
    next
      case False
      then have "ssm ?w1 n = ssm w n"
        by (cases "isRedacted (apiKey a)")
           (auto simp add: storeCredential_redacted storeCredential_plaintext)
      with same show ?thesis unfolding final by simp
    qed
  next
    case later
    then show ?thesis unfolding final by auto
  qed
qed

lemma storeCredentials_redacted_outcomes:
  assumes "\<forall>c \<in> set cs. isRedacted (apiKey c)"
    and "\<forall>c \<in> set cs. storedCredential parse w c \<noteq> None"
    and "ssm w1 = ssm w"
  shows "fst (storeCredentials parse cs w1) = map (\<lambda>c. Inr (the (storedCredential parse w c))) cs"
  using assms
proof (induction cs arbitrary: w1)
  case Nil
  show ?case by simp
next
  case (Cons a cs)
  have a: "fst (storeCredential parse a w1) = Inr (the (storedCredential parse w a))"
    using Cons.prems
    by (auto simp add: storeCredential_outcome storedCredential_def split: option.splits)
  have "ssm (snd (storeCredential parse a w1)) = ssm w"
    using Cons.prems by (simp add: storeCredential_redacted)
  with Cons.prems
  have "fst (storeCredentials parse cs (snd (storeCredential parse a w1))) =
        map (\<lambda>c. Inr (the (storedCredential parse w c))) cs"
    by (intro Cons.IH) simp_all
  with a show ?case by (simp add: split_beta Let_def)
qed

lemma missing_record_outcome:
  assumes "distinct (map clientId cs)" and "c \<in> set cs" and "isRedacted (apiKey c)"
    and "ssm w (parameterName c) = None"
  shows "Inl ParameterNotFound \<in> set (fst (storeCredentials parse cs w))"
proof -
  from assms(2) obtain i where i: "i < length cs" and c: "cs ! i = c"
    by (auto simp add: in_set_conv_nth)
  have "ssm (snd (storeCredentials parse (take i cs) w)) (parameterName c) = None"
    using storeCredentials_before_frame [OF assms(1) i, of parse w] assms(3,4) c by simp
  then have "fst (storeCredentials parse cs w) ! i = Inl ParameterNotFound"
    using storeCredentials_nth [OF i, of parse w] assms(3) c
    by (simp add: storeCredential_outcome)
  then show ?thesis
    using i by (metis length_storeCredentials nth_mem)
qed

lemma errors_are_not_found:
  assumes "distinct (map clientId cs)"
    and "\<forall>q \<in> set cs. isRedacted (apiKey q) \<longrightarrow>
           (\<forall>v. ssm w (parameterName q) = Some v \<longrightarrow> parse v \<noteq> None)"
    and "Inl e \<in> set (fst (storeCredentials parse cs w))"
  shows "e = ParameterNotFound"
proof -
  from assms(3) obtain i where i: "i < length cs"
    and at: "fst (storeCredentials parse cs w) ! i = Inl e"
    by (auto simp add: in_set_conv_nth)
  let ?q = "cs ! i"
  let ?before = "snd (storeCredentials parse (take i cs) w)"
  have outcome: "fst (storeCredential parse ?q ?before) = Inl e"
    using storeCredentials_nth [OF i, of parse w] at by simp
  then have red: "isRedacted (apiKey ?q)"
    by (auto simp add: storeCredential_outcome split: if_splits)
  have same: "ssm ?before (parameterName ?q) = ssm w (parameterName ?q)"
    using assms(1) i red by (rule storeCredentials_before_frame)
  have "?q \<in> set cs" using i by simp
  with assms(2) red
  have valid: "\<forall>v. ssm w (parameterName ?q) = Some v \<longrightarrow> parse v \<noteq> None" by blast
  show ?thesis
    using outcome red same valid
    by (auto simp add: storeCredential_outcome split: option.splits)
qed

section \<open>Unfolding the model on concrete inputs\<close>

lemmas json_eval = JSON_stringify_def JSON_quote_def quoteChar_def JSON_stringify_indented_def
  JSON_indent_credential_def newline_def hexDigit_def

lemmas run_eval = rewriteS3ObjectFile_def storeCredential_def getParameter_def putParameter_def
  putObject_def isRedacted_def startsWith_def parameterName_def anyPlaintext_def
  redactCredential_def maskApiKey_def slice_from_end_def Let_def storedCredential_def

lemmas parse_eval = parseCompact_def expect_def hexValue_def

lemmas sample_eval = sampleRun_def emptyWorld_def worldWith_def docExampleFile_def plainFile_def
  duplicateFile_def
  redactedFile_def mixedFile_def storedWorld_def

lemma run_mixed_stored:
  "sampleRun mixedFile storedWorld = 
   (Inr (plainFile\<lparr>lastUpdated := ''2025-10-24T08:30:00.000Z''\<rparr>),
    storedWorld\<lparr>
      ssmCalls := [GetParameterCommand ''/pii/client-1/credentials'',
                   PutParameterCommand ''/pii/client-2/credentials''
                     (JSON_stringify \<lparr>clientId = ''client-2'', apiKey = ''sk_test_def456uvw''\<rparr>)
                     ''String'' True],
      ssm := (ssm storedWorld)(''/pii/client-2/credentials'' \<mapsto> 
                JSON_stringify \<lparr>clientId = ''client-2'', apiKey = ''sk_test_def456uvw''\<rparr>),
      s3 := [(''test-bucket'', ''test-key.json'') \<mapsto> JSON_stringify_indented
           (redactedFile\<lparr>lastUpdated := ''2025-10-24T08:30:00.000Z''\<rparr>)],
      s3Calls := [PutObjectCommand ''test-bucket'' ''test-key.json''
        (JSON_stringify_indented
           (redactedFile\<lparr>lastUpdated := ''2025-10-24T08:30:00.000Z''\<rparr>))]\<rparr>)"
  by (simp add: sample_eval run_eval parse_eval json_eval)

lemma run_redacted_stored:
  "fst (sampleRun redactedFile storedWorld) = Inr plainFile"
  by (simp add: sample_eval run_eval parse_eval json_eval)

lemma run_redacted_empty:
  "fst (sampleRun redactedFile emptyWorld) = Inl ParameterNotFound"
  by (simp add: sample_eval run_eval)

lemma anyPlaintext_samples:
  "anyPlaintext mixedFile" "\<not> anyPlaintext redactedFile" "anyPlaintext plainFile"
  by (simp_all add: anyPlaintext_def sample_eval isRedacted_def startsWith_def)

section \<open>What the bucket receives\<close>

text \<open>
  C1 (the code at the example of its own doc comment). The document of the doc comment
  of \<^verbatim>\<open>rewriteS3ObjectFile\<close> is reconciled against a parameter store holding the full
  credential of \<open>client-1\<close>. The document returned has the full key
  \<open>sk_live_abc123xyz\<close> for \<open>client-1\<close>; the document written to the bucket has
  \<open>*****xyz\<close> for it, the input value \<open>****xyz\<close> redacted once more, whereas redacting
  the credentials that were fetched or stored gives \<open>****3xyz\<close>.
\<close>

theorem rewrite_masks_input_entries:
  "fst (rewriteS3ObjectFile parseCompact ''pii-bucket'' ''2025-10-24T08:30:00.000Z''
          docExampleFile ''credentials/prod.json'' docExampleWorld) =
     Inr \<lparr>lastUpdated = ''2025-10-24T08:30:00.000Z'',
          credentials = [\<lparr>clientId = ''client-1'', apiKey = ''sk_live_abc123xyz''\<rparr>,
                         \<lparr>clientId = ''client-2'', apiKey = ''sk_live_newkey123''\<rparr>]\<rparr> \<and>
   s3Calls (snd (rewriteS3ObjectFile parseCompact ''pii-bucket'' ''2025-10-24T08:30:00.000Z''
                   docExampleFile ''credentials/prod.json'' docExampleWorld)) =
     [PutObjectCommand ''pii-bucket'' ''credentials/prod.json''
        (JSON_stringify_indented
           \<lparr>lastUpdated = ''2025-10-24T08:30:00.000Z'',
            credentials = [\<lparr>clientId = ''client-1'', apiKey = ''*****xyz''\<rparr>,
                           \<lparr>clientId = ''client-2'', apiKey = ''****y123''\<rparr>]\<rparr>)] \<and>
   map redactCredential
       [\<lparr>clientId = ''client-1'', apiKey = ''sk_live_abc123xyz''\<rparr>,
        \<lparr>clientId = ''client-2'', apiKey = ''sk_live_newkey123''\<rparr>] =
     [\<lparr>clientId = ''client-1'', apiKey = ''****3xyz''\<rparr>,
      \<lparr>clientId = ''client-2'', apiKey = ''****y123''\<rparr>]"
  by (simp add: docExampleWorld_def sample_eval run_eval parse_eval json_eval)

section \<open>When the bucket is written\<close>

text \<open>
  C2 (as amended). The test of line 142 holds exactly when some input entry is not
  redacted. When the reconciliation returns a document, a call to the bucket is made
  exactly when that test holds, and it is one \<^verbatim>\<open>PutObjectCommand\<close>. When no input
  entry is plain text, no call to the bucket is made, the bucket is as it was, and a
  returned document has the \<open>lastUpdated\<close> of the input. When the reconciliation
  aborts, no call to the bucket is made.
\<close>

theorem write_iff_plaintext_when_returned:
  "case rewriteS3ObjectFile parse b now f key w of
     (r, w') \<Rightarrow>
       (anyPlaintext f \<longleftrightarrow> (\<exists>c \<in> set (credentials f). \<not> isRedacted (apiKey c))) \<and>
       (\<forall>out. r = Inr out \<longrightarrow>
          (s3Calls w' \<noteq> s3Calls w \<longleftrightarrow> anyPlaintext f) \<and>
          (anyPlaintext f \<longrightarrow>
             s3Calls w' =
               s3Calls w @ [PutObjectCommand b key
                  (JSON_stringify_indented
                     \<lparr>lastUpdated = now,
                        credentials = map redactCredential (credentials f)\<rparr>)])) \<and>
       (\<not> anyPlaintext f \<longrightarrow>
          s3Calls w' = s3Calls w \<and> s3 w' = s3 w \<and>
          (\<forall>out. r = Inr out \<longrightarrow> lastUpdated out = lastUpdated f)) \<and>
       (\<forall>e. r = Inl e \<longrightarrow> s3Calls w' = s3Calls w \<and> s3 w' = s3 w)"
proof -
  let ?run = "rewriteS3ObjectFile parse b now f key w"
  have written: "s3Calls (snd ?run) =
      s3Calls w @ [PutObjectCommand b key
         (JSON_stringify_indented
            \<lparr>lastUpdated = now, credentials = map redactCredential (credentials f)\<rparr>)]"
    if "fst ?run = Inr out" "anyPlaintext f" for out
    using rewrite_plaintext_s3 [OF that(2,1)] by simp
  have iff: "s3Calls (snd ?run) \<noteq> s3Calls w \<longleftrightarrow> anyPlaintext f" if "fst ?run = Inr out" for out
  proof (cases "anyPlaintext f")
    case True
    with written [OF that] show ?thesis by simp
  next
    case False
    with rewrite_masked_s3 [OF False, of parse b now key w] show ?thesis by simp
  qed
  have kept: "lastUpdated out = lastUpdated f" if "\<not> anyPlaintext f" "fst ?run = Inr out" for out
    using that by (rule rewrite_masked_result)
  have frame: "s3Calls (snd ?run) = s3Calls w \<and> s3 (snd ?run) = s3 w" if "\<not> anyPlaintext f"
    using that by (rule rewrite_masked_s3)
  have aborted: "s3Calls (snd ?run) = s3Calls w \<and> s3 (snd ?run) = s3 w" if "fst ?run = Inl e" for e
    using that by (rule rewrite_error_s3)
  have main: "(anyPlaintext f \<longleftrightarrow> (\<exists>c \<in> set (credentials f). \<not> isRedacted (apiKey c))) \<and>
       (\<forall>out. fst ?run = Inr out \<longrightarrow>
          (s3Calls (snd ?run) \<noteq> s3Calls w \<longleftrightarrow> anyPlaintext f) \<and>
          (anyPlaintext f \<longrightarrow>
             s3Calls (snd ?run) =
               s3Calls w @ [PutObjectCommand b key
                  (JSON_stringify_indented
                     \<lparr>lastUpdated = now,
                        credentials = map redactCredential (credentials f)\<rparr>)])) \<and>
       (\<not> anyPlaintext f \<longrightarrow>
          s3Calls (snd ?run) = s3Calls w \<and> s3 (snd ?run) = s3 w \<and>
          (\<forall>out. fst ?run = Inr out \<longrightarrow> lastUpdated out = lastUpdated f)) \<and>
       (\<forall>e. fst ?run = Inl e \<longrightarrow> s3Calls (snd ?run) = s3Calls w \<and> s3 (snd ?run) = s3 w)"
    using anyPlaintext_iff [of f] written iff kept frame aborted by blast
  show ?thesis unfolding split_beta by (rule main)
qed

theorem write_iff_plaintext_when_returned_witness:
  "fst (sampleRun mixedFile storedWorld) =
     Inr (plainFile\<lparr>lastUpdated := ''2025-10-24T08:30:00.000Z''\<rparr>) \<and>
   anyPlaintext mixedFile \<and>
   s3Calls (snd (sampleRun mixedFile storedWorld)) =
     s3Calls storedWorld @ [PutObjectCommand ''test-bucket'' ''test-key.json''
        (JSON_stringify_indented
           \<lparr>lastUpdated = ''2025-10-24T08:30:00.000Z'',
              credentials = map redactCredential (credentials mixedFile)\<rparr>)] \<and>
   \<not> anyPlaintext redactedFile \<and>
   fst (sampleRun redactedFile storedWorld) = Inr plainFile \<and>
   lastUpdated plainFile = lastUpdated redactedFile \<and>
   s3Calls (snd (sampleRun redactedFile storedWorld)) = s3Calls storedWorld \<and>
   fst (sampleRun redactedFile emptyWorld) = Inl ParameterNotFound \<and>
   s3Calls (snd (sampleRun redactedFile emptyWorld)) = s3Calls emptyWorld"
proof -
  have ok: "fst (sampleRun mixedFile storedWorld) =
     Inr (plainFile\<lparr>lastUpdated := ''2025-10-24T08:30:00.000Z''\<rparr>)"
    by (simp add: run_mixed_stored)
  show ?thesis
    using ok run_redacted_stored run_redacted_empty anyPlaintext_samples(1,2)
      write_iff_plaintext_when_returned [where parse = parseCompact and b = "''test-bucket''"
        and now = "''2025-10-24T08:30:00.000Z''" and f = mixedFile and key = "''test-key.json''"
        and w = storedWorld]
      write_iff_plaintext_when_returned [where parse = parseCompact and b = "''test-bucket''"
        and now = "''2025-10-24T08:30:00.000Z''" and f = redactedFile
        and key = "''test-key.json''" and w = storedWorld]
      write_iff_plaintext_when_returned [where parse = parseCompact and b = "''test-bucket''"
        and now = "''2025-10-24T08:30:00.000Z''" and f = redactedFile
        and key = "''test-key.json''" and w = emptyWorld]
    unfolding sampleRun_def by (simp only: split_beta) blast
qed

text \<open>
  C2 as stated fails: \<open>mixedFile\<close> has a plain-text entry, but with no record for its
  redacted entry the reconciliation aborts before the bucket is written.
\<close>

theorem write_iff_plaintext_counterexample:
  "anyPlaintext mixedFile \<and>
   fst (sampleRun mixedFile emptyWorld) = Inl ParameterNotFound \<and>
   s3Calls (snd (sampleRun mixedFile emptyWorld)) = s3Calls emptyWorld \<and>
   \<not> (s3Calls (snd (sampleRun mixedFile emptyWorld))
          \<noteq> s3Calls emptyWorld
        \<longleftrightarrow> anyPlaintext mixedFile)"
  by (simp add: sample_eval run_eval parse_eval json_eval)

section \<open>A redacted entry without a record\<close>

text \<open>
  C3 (as amended). For every input document with distinct client ids that contains a
  redacted entry for which the parameter store has no record, the reconciliation aborts
  with an error, sends no call to the bucket and leaves it as it was; the error is
  \<open>ParameterNotFound\<close> (the spec's NotFoundError) when every record the parameter
  store holds for a redacted entry of the document is a valid credential.
\<close>

theorem missing_record_aborts:
  assumes "distinct (map clientId (credentials f))"
    and "c \<in> set (credentials f)" and "isRedacted (apiKey c)"
    and "ssm w (parameterName c) = None"
  shows "case rewriteS3ObjectFile parse b now f key w of
     (r, w') \<Rightarrow>
       (\<exists>e. r = Inl e) \<and> s3Calls w' = s3Calls w \<and> s3 w' = s3 w \<and>
       ((\<forall>q \<in> set (credentials f). isRedacted (apiKey q) \<longrightarrow>
           (\<forall>v. ssm w (parameterName q) = Some v \<longrightarrow> parse v \<noteq> None)) \<longrightarrow>
        r = Inl ParameterNotFound)"
proof -
  let ?cs = "credentials f"
  let ?run = "rewriteS3ObjectFile parse b now f key w"
  let ?outcomes = "fst (storeCredentials parse ?cs w)"
  have "Inl ParameterNotFound \<in> set ?outcomes"
    using assms by (rule missing_record_outcome)
  then obtain e where e: "Promise_all ?outcomes = Inl e"
    using Promise_all_fails by blast
  then have r: "fst ?run = Inl e"
    by (simp add: rewriteS3ObjectFile_unfold)
  have s3: "s3Calls (snd ?run) = s3Calls w \<and> s3 (snd ?run) = s3 w"
    using r by (rule rewrite_error_s3)
  have "e = ParameterNotFound"
    if "\<forall>q \<in> set ?cs. isRedacted (apiKey q) \<longrightarrow>
          (\<forall>v. ssm w (parameterName q) = Some v \<longrightarrow> parse v \<noteq> None)"
    using assms(1) that Promise_all_Inl_mem [OF e] by (rule errors_are_not_found)
  with r s3 show ?thesis by (simp add: split_beta)
qed

theorem missing_record_aborts_witness:
  "distinct (map clientId (credentials mixedFile)) \<and>
   \<lparr>clientId = ''client-1'', apiKey = ''****3xyz''\<rparr> \<in> set (credentials mixedFile) \<and>
   isRedacted ''****3xyz'' \<and>
   ssm emptyWorld ''/pii/client-1/credentials'' = None \<and>
   fst (sampleRun mixedFile emptyWorld) = Inl ParameterNotFound \<and>
   s3Calls (snd (sampleRun mixedFile emptyWorld)) = []"
proof -
  have d: "distinct (map clientId (credentials mixedFile))"
    by (simp add: sample_eval)
  have m: "\<lparr>clientId = ''client-1'', apiKey = ''****3xyz''\<rparr> \<in> set (credentials mixedFile)"
    by (simp add: sample_eval)
  have r: "isRedacted (apiKey \<lparr>clientId = ''client-1'', apiKey = ''****3xyz''\<rparr>)"
    by (simp add: isRedacted_def startsWith_def)
  have n: "ssm emptyWorld (parameterName \<lparr>clientId = ''client-1'', apiKey = ''****3xyz''\<rparr>) = None"
    by (simp add: sample_eval)
  show ?thesis
    using d m r n
      missing_record_aborts [OF d m r n, where parse = parseCompact and b = "''test-bucket''"
        and now = "''2025-10-24T08:30:00.000Z''" and key = "''test-key.json''"]
    by (simp add: sample_eval parameterName_def split_beta)
qed

text \<open>
  C3 as stated fails: \<open>client-2\<close> is redacted and has no record, yet the request
  aborts with the error of \<open>client-1\<close>, whose record does not parse.
\<close>

theorem missing_record_counterexample:
  "\<lparr>clientId = ''client-2'', apiKey = ''****6uvw''\<rparr> \<in> set (credentials redactedFile) \<and>
   isRedacted ''****6uvw'' \<and>
   ssm rawKeyWorld ''/pii/client-2/credentials'' = None \<and>
   fst (sampleRun redactedFile rawKeyWorld) = Inl InvalidStoredCredential \<and>
   fst (sampleRun redactedFile rawKeyWorld) \<noteq> Inl ParameterNotFound"
  by (simp add: rawKeyWorld_def sample_eval run_eval parse_eval json_eval)

text \<open>
  Why the client ids are taken distinct: when a plain-text entry of the same client comes
  first, the sequential model has its record written before the redacted entry is looked
  up, and nothing aborts.
\<close>

lemma duplicate_client_returns:
  "ssm emptyWorld ''/pii/client-1/credentials'' = None \<and>
   fst (sampleRun duplicateFile emptyWorld) =
     Inr \<lparr>lastUpdated = ''2025-10-24T08:30:00.000Z'',
          credentials = [\<lparr>clientId = ''client-1'', apiKey = ''sk_live_abc123xyz''\<rparr>,
                         \<lparr>clientId = ''client-1'', apiKey = ''sk_live_abc123xyz''\<rparr>]\<rparr>"
  by (simp add: sample_eval run_eval parse_eval json_eval)

section \<open>A document that is already redacted\<close>

text \<open>
  C4. Reconciling a document whose entries are all redacted sends no call to the bucket
  and leaves it as it was, leaves the parameter store as it was, sends the parameter
  store one read per entry and nothing else, and finds no plain-text entry; when the
  parameter store holds a valid record for every entry, the result is the document with
  each entry replaced by its record and \<open>lastUpdated\<close> as it came.
\<close>

theorem all_redacted_only_reads:
  assumes "\<forall>c \<in> set (credentials f). isRedacted (apiKey c)"
  shows "case rewriteS3ObjectFile parse b now f key w of
     (r, w') \<Rightarrow>
       \<not> anyPlaintext f \<and>
       s3Calls w' = s3Calls w \<and> s3 w' = s3 w \<and>
       ssm w' = ssm w \<and>
       ssmCalls w' =
         ssmCalls w @ map (\<lambda>c. GetParameterCommand (parameterName c)) (credentials f) \<and>
       ((\<forall>c \<in> set (credentials f). storedCredential parse w c \<noteq> None) \<longrightarrow>
          r = Inr (f\<lparr>credentials :=
                       map (\<lambda>c. the (storedCredential parse w c)) (credentials f)\<rparr>))"
proof -
  let ?cs = "credentials f"
  let ?run = "rewriteS3ObjectFile parse b now f key w"
  have none: "\<not> anyPlaintext f"
    using assms by (simp add: anyPlaintext_iff)
  have s3: "s3Calls (snd ?run) = s3Calls w \<and> s3 (snd ?run) = s3 w"
    using none by (rule rewrite_masked_s3)
  have store: "ssm (snd ?run) = ssm w"
    using assms by (simp add: rewrite_ssm storeCredentials_ssm_redacted)
  have "map commandFor ?cs = map (\<lambda>c. GetParameterCommand (parameterName c)) ?cs"
    using assms by (simp add: commandFor_def)
  then have calls: "ssmCalls (snd ?run) =
      ssmCalls w @ map (\<lambda>c. GetParameterCommand (parameterName c)) ?cs"
    by (simp add: rewrite_ssmCalls)
  have result: "fst ?run = Inr (f\<lparr>credentials := map (\<lambda>c. the (storedCredential parse w c)) ?cs\<rparr>)"
    if "\<forall>c \<in> set ?cs. storedCredential parse w c \<noteq> None"
  proof -
    have outcomes: "fst (storeCredentials parse ?cs w) =
        map Inr (map (\<lambda>c. the (storedCredential parse w c)) ?cs)"
      using storeCredentials_redacted_outcomes [OF assms that refl] by simp
    have "Promise_all (fst (storeCredentials parse ?cs w)) =
        Inr (map (\<lambda>c. the (storedCredential parse w c)) ?cs)"
      unfolding outcomes by (rule Promise_all_map_Inr)
    then show ?thesis
      using none by (simp add: rewriteS3ObjectFile_unfold)
  qed
  show ?thesis
    using none s3 store calls result by (simp add: split_beta)
qed

theorem all_redacted_only_reads_witness:
  "list_all (\<lambda>c. isRedacted (apiKey c)) (credentials redactedFile) \<and>
   list_all (\<lambda>c. storedCredential parseCompact storedWorld c \<noteq> None) (credentials redactedFile) \<and>
   \<not> anyPlaintext redactedFile \<and>
   fst (sampleRun redactedFile storedWorld) = Inr plainFile \<and>
   s3Calls (snd (sampleRun redactedFile storedWorld)) = [] \<and>
   ssmCalls (snd (sampleRun redactedFile storedWorld)) =
     [GetParameterCommand ''/pii/client-1/credentials'',
      GetParameterCommand ''/pii/client-2/credentials'']"
proof -
  have red: "\<forall>c \<in> set (credentials redactedFile). isRedacted (apiKey c)"
    by (simp add: sample_eval isRedacted_def startsWith_def)
  have held: "\<forall>c \<in> set (credentials redactedFile). storedCredential parseCompact storedWorld c \<noteq> None"
    by (simp add: sample_eval run_eval parse_eval json_eval)
  show ?thesis
    using red held
      all_redacted_only_reads [OF red, where parse = parseCompact and b = "''test-bucket''"
        and now = "''2025-10-24T08:30:00.000Z''" and key = "''test-key.json''"
        and w = storedWorld]
    by (simp add: sample_eval run_eval parse_eval json_eval)
qed

section \<open>Order of the entries\<close>

text \<open>
  C6. When the reconciliation returns a document, its entries are as many as the input's
  and the i-th is what \<open>storeCredential\<close> returned for the i-th input entry: that entry
  itself when it is plain text, the credential the parameter store held for it when it
  is redacted (the store as the entries before it left it, which for a redacted entry
  is the initial store when the client ids of the document are distinct).
\<close>

theorem output_order_is_input_order:
  "case rewriteS3ObjectFile parse b now f key w of
     (r, w') \<Rightarrow>
       \<forall>out. r = Inr out \<longrightarrow>
         length (credentials out) = length (credentials f) \<and>
         (\<forall>i < length (credentials f).
            let entry = credentials f ! i;
                before = snd (storeCredentials parse (take i (credentials f)) w)
            in Inr (credentials out ! i) = fst (storeCredential parse entry before) \<and>
               (\<not> isRedacted (apiKey entry) \<longrightarrow> credentials out ! i = entry) \<and>
               (isRedacted (apiKey entry) \<longrightarrow>
                  Some (credentials out ! i) = storedCredential parse before entry \<and>
                  (distinct (map clientId (credentials f)) \<longrightarrow>
                     Some (credentials out ! i) = storedCredential parse w entry)))"
proof (simp only: split_beta Let_def, intro allI impI)
  fix out
  let ?cs = "credentials f"
  assume ok: "fst (rewriteS3ObjectFile parse b now f key w) = Inr out"
  have outcomes: "fst (storeCredentials parse ?cs w) = map Inr (credentials out)"
    using ok by (rule rewrite_result_credentials)
  have len: "length (credentials out) = length ?cs"
    using arg_cong [OF outcomes, of length] by simp
  have each: "Inr (credentials out ! i) =
      fst (storeCredential parse (?cs ! i) (snd (storeCredentials parse (take i ?cs) w)))"
    if "i < length ?cs" for i
    using storeCredentials_nth [OF that, of parse w] that len by (simp add: outcomes)
  have plain: "credentials out ! i = ?cs ! i"
    if "i < length ?cs" "\<not> isRedacted (apiKey (?cs ! i))" for i
    using each [OF that(1)] that(2) by (simp add: storeCredential_outcome)
  have red: "Some (credentials out ! i) =
      storedCredential parse (snd (storeCredentials parse (take i ?cs) w)) (?cs ! i)"
    if "i < length ?cs" "isRedacted (apiKey (?cs ! i))" for i
    using each [OF that(1)] that(2)
    by (simp add: storeCredential_outcome storedCredential_def split: option.splits)
  have red0: "Some (credentials out ! i) = storedCredential parse w (?cs ! i)"
    if "i < length ?cs" "isRedacted (apiKey (?cs ! i))" "distinct (map clientId ?cs)" for i
    using red [OF that(1,2)] storeCredentials_before_frame [OF that(3,1,2), of parse w]
    by (simp add: storedCredential_def)
  show "length (credentials out) = length ?cs \<and>
        (\<forall>i < length ?cs.
            Inr (credentials out ! i) =
              fst (storeCredential parse (?cs ! i) (snd (storeCredentials parse (take i ?cs) w))) \<and>
            (\<not> isRedacted (apiKey (?cs ! i)) \<longrightarrow> credentials out ! i = ?cs ! i) \<and>
            (isRedacted (apiKey (?cs ! i)) \<longrightarrow>
               Some (credentials out ! i) =
                 storedCredential parse (snd (storeCredentials parse (take i ?cs) w)) (?cs ! i) \<and>
               (distinct (map clientId ?cs) \<longrightarrow>
                  Some (credentials out ! i) = storedCredential parse w (?cs ! i))))"
    using len each plain red red0 by blast
qed

theorem output_order_is_input_order_witness:
  "fst (sampleRun mixedFile storedWorld) =
     Inr \<lparr>lastUpdated = ''2025-10-24T08:30:00.000Z'',
          credentials = [\<lparr>clientId = ''client-1'', apiKey = ''sk_live_abc123xyz''\<rparr>,
                         \<lparr>clientId = ''client-2'', apiKey = ''sk_test_def456uvw''\<rparr>]\<rparr> \<and>
   (0::nat) < length (credentials mixedFile) \<and>
   isRedacted (apiKey (credentials mixedFile ! 0)) \<and>
   distinct (map clientId (credentials mixedFile)) \<and>
   storedCredential parseCompact storedWorld (credentials mixedFile ! 0) =
     Some \<lparr>clientId = ''client-1'', apiKey = ''sk_live_abc123xyz''\<rparr> \<and>
   (1::nat) < length (credentials mixedFile) \<and>
   \<not> isRedacted (apiKey (credentials mixedFile ! 1)) \<and>
   credentials mixedFile ! 1 = \<lparr>clientId = ''client-2'', apiKey = ''sk_test_def456uvw''\<rparr>"
  using output_order_is_input_order [where parse = parseCompact and b = "''test-bucket''"
      and now = "''2025-10-24T08:30:00.000Z''" and f = mixedFile and key = "''test-key.json''"
      and w = storedWorld]
  by (simp add: sample_eval run_eval parse_eval json_eval)

section \<open>Plain-text entries\<close>

text \<open>
  C7. For every input entry whose key is not redacted: \<open>storeCredential\<close> sends one
  \<^verbatim>\<open>PutParameterCommand\<close> with the name \<open>/pii/{clientId}/credentials\<close>, the JSON
  encoding of the entry as value and Overwrite set, which replaces whatever the
  parameter store held under that name, and returns the entry as it came; in a
  reconciliation that call is the one at the entry's position, the parameter store ends
  with the entry's encoding under that name when the client ids are distinct, and the
  returned document has the entry unchanged at its position.
\<close>

theorem plaintext_entry_is_stored:
  "case rewriteS3ObjectFile parse b now f key w of
     (r, w') \<Rightarrow>
       \<forall>i < length (credentials f).
         let entry = credentials f ! i;
             name = ''/pii/'' @ clientId entry @ ''/credentials''
         in \<not> isRedacted (apiKey entry) \<longrightarrow>
              (\<forall>w0. storeCredential parse entry w0 =
                 (Inr entry,
                  w0\<lparr>ssmCalls := ssmCalls w0 @
                        [PutParameterCommand name (JSON_stringify entry) ''String'' True],
                     ssm := (ssm w0)(name \<mapsto> JSON_stringify entry)\<rparr>)) \<and>
              ssmCalls w' ! (length (ssmCalls w) + i) =
                PutParameterCommand name (JSON_stringify entry) ''String'' True \<and>
              (distinct (map clientId (credentials f)) \<longrightarrow>
                 ssm w' name = Some (JSON_stringify entry)) \<and>
              (\<forall>out. r = Inr out \<longrightarrow> credentials out ! i = entry)"
proof (simp only: split_beta Let_def, intro allI impI)
  fix i
  let ?cs = "credentials f"
  let ?entry = "?cs ! i"
  let ?name = "''/pii/'' @ clientId ?entry @ ''/credentials''"
  let ?run = "rewriteS3ObjectFile parse b now f key w"
  assume i: "i < length ?cs" and plain: "\<not> isRedacted (apiKey ?entry)"
  have name: "parameterName ?entry = ?name" by (simp add: parameterName_def)
  have step: "storeCredential parse ?entry w0 =
      (Inr ?entry,
       w0\<lparr>ssmCalls := ssmCalls w0 @
             [PutParameterCommand ?name (JSON_stringify ?entry) ''String'' True],
          ssm := (ssm w0)(?name \<mapsto> JSON_stringify ?entry)\<rparr>)" for w0
    using storeCredential_plaintext [OF plain, of parse w0] by (simp add: name)
  have call: "ssmCalls (snd ?run) ! (length (ssmCalls w) + i) =
      PutParameterCommand ?name (JSON_stringify ?entry) ''String'' True"
    using i plain by (simp add: rewrite_ssmCalls commandFor_def name)
  have kept: "ssm (snd ?run) ?name = Some (JSON_stringify ?entry)"
    if "distinct (map clientId ?cs)"
    using storeCredentials_ssm_last [OF that _ plain, of parse w] i
    by (simp add: rewrite_ssm name)
  have through: "credentials out ! i = ?entry" if "fst ?run = Inr out" for out
  proof -
    have "fst (storeCredentials parse ?cs w) ! i = Inr (credentials out ! i)"
      using rewrite_result_credentials [OF that] i
      by (metis length_map length_storeCredentials nth_map)
    then show ?thesis
      using storeCredentials_nth [OF i, of parse w] plain
      by (simp add: storeCredential_outcome)
  qed
  show "(\<forall>w0. storeCredential parse ?entry w0 =
           (Inr ?entry,
            w0\<lparr>ssmCalls := ssmCalls w0 @
                  [PutParameterCommand ?name (JSON_stringify ?entry) ''String'' True],
               ssm := (ssm w0)(?name \<mapsto> JSON_stringify ?entry)\<rparr>)) \<and>
        ssmCalls (snd ?run) ! (length (ssmCalls w) + i) =
          PutParameterCommand ?name (JSON_stringify ?entry) ''String'' True \<and>
        (distinct (map clientId ?cs) \<longrightarrow> ssm (snd ?run) ?name = Some (JSON_stringify ?entry)) \<and>
        (\<forall>out. fst ?run = Inr out \<longrightarrow> credentials out ! i = ?entry)"
    using step call kept through by blast
qed

theorem plaintext_entry_is_stored_witness:
  "(0::nat) < length (credentials plainFile) \<and>
   \<not> isRedacted (apiKey (credentials plainFile ! 0)) \<and>
   distinct (map clientId (credentials plainFile)) \<and>
   ssmCalls (snd (sampleRun plainFile emptyWorld)) ! 0 =
     PutParameterCommand ''/pii/client-1/credentials''
       (JSON_stringify \<lparr>clientId = ''client-1'', apiKey = ''sk_live_abc123xyz''\<rparr>) ''String'' True \<and>
   ssm (snd (sampleRun plainFile emptyWorld)) ''/pii/client-1/credentials'' =
     Some (JSON_stringify \<lparr>clientId = ''client-1'', apiKey = ''sk_live_abc123xyz''\<rparr>) \<and>
   JSON_stringify \<lparr>clientId = ''client-1'', apiKey = ''sk_live_abc123xyz''\<rparr> =
     ''{'' @ quoted ''clientId'' @ '':'' @ quoted ''client-1'' @ '','' @
     quoted ''apiKey'' @ '':'' @ quoted ''sk_live_abc123xyz'' @ ''}'' \<and>
   fst (sampleRun plainFile emptyWorld) =
     Inr (plainFile\<lparr>lastUpdated := ''2025-10-24T08:30:00.000Z''\<rparr>)"
  using plaintext_entry_is_stored [where parse = parseCompact and b = "''test-bucket''"
      and now = "''2025-10-24T08:30:00.000Z''" and f = plainFile and key = "''test-key.json''"
      and w = emptyWorld]
  by (simp add: sample_eval run_eval parse_eval json_eval quoted_def)

section \<open>What the parameter store receives\<close>

text \<open>
  C8. Every value a reconciliation writes to the parameter store is the JSON encoding of
  an input entry whose key is not redacted; a name whose value changed holds such an
  encoding afterwards; and, for a decoder that reads back what the encoder writes (as
  \<^verbatim>\<open>JSON.parse\<close> followed by the schema does), a parameter store in which no record
  decodes to a redacted key stays so.
\<close>

theorem stored_values_are_not_masked:
  "case rewriteS3ObjectFile parse b now f key w of
     (r, w') \<Rightarrow>
       (\<forall>cmd \<in> set (drop (length (ssmCalls w)) (ssmCalls w')).
          \<forall>name v ty ov. cmd = PutParameterCommand name v ty ov \<longrightarrow>
            (\<exists>c \<in> set (credentials f).
               name = parameterName c \<and> v = JSON_stringify c \<and> \<not> isRedacted (apiKey c))) \<and>
       (\<forall>name. ssm w' name \<noteq> ssm w name \<longrightarrow>
          (\<exists>c \<in> set (credentials f).
             ssm w' name = Some (JSON_stringify c) \<and> \<not> isRedacted (apiKey c))) \<and>
       ((\<forall>c. parse (JSON_stringify c) = Some c) \<and>
        (\<forall>name v c. ssm w name = Some v \<and> parse v = Some c \<longrightarrow> \<not> isRedacted (apiKey c)) \<longrightarrow>
        (\<forall>name v c. ssm w' name = Some v \<and> parse v = Some c \<longrightarrow> \<not> isRedacted (apiKey c)))"
proof -
  let ?cs = "credentials f"
  let ?w' = "snd (rewriteS3ObjectFile parse b now f key w)"
  have changed: "\<exists>c \<in> set ?cs. ssm ?w' name = Some (JSON_stringify c) \<and> \<not> isRedacted (apiKey c)"
    if "ssm ?w' name \<noteq> ssm w name" for name
    using storeCredentials_ssm_changed [of parse ?cs w name] that
    by (auto simp add: rewrite_ssm)
  have puts: "\<exists>c \<in> set ?cs. name = parameterName c \<and> v = JSON_stringify c \<and>
      \<not> isRedacted (apiKey c)"
    if "cmd \<in> set (drop (length (ssmCalls w)) (ssmCalls ?w'))"
      and put: "cmd = PutParameterCommand name v ty ov" for cmd name v ty ov
  proof -
    from that(1) obtain c where c: "c \<in> set ?cs" and cmd: "cmd = commandFor c"
      by (auto simp add: rewrite_ssmCalls)
    have plain: "\<not> isRedacted (apiKey c)"
      using put cmd by (auto simp add: commandFor_def split: if_splits)
    then have "name = parameterName c" "v = JSON_stringify c"
      using put cmd by (simp_all add: commandFor_def)
    with c plain show ?thesis by auto
  qed
  have kept: "\<not> isRedacted (apiKey c)"
    if lawful: "\<forall>c. parse (JSON_stringify c) = Some c"
      and inv: "\<forall>name v c. ssm w name = Some v \<and> parse v = Some c \<longrightarrow> \<not> isRedacted (apiKey c)"
      and held: "ssm ?w' name = Some v \<and> parse v = Some c" for name v c
  proof (cases "ssm ?w' name = ssm w name")
    case True
    with inv held show ?thesis by metis
  next
    case False
    from changed [OF this] obtain c' where
      "ssm ?w' name = Some (JSON_stringify c')" "\<not> isRedacted (apiKey c')"
      by blast
    with held lawful show ?thesis by auto
  qed
  have first: "\<forall>cmd \<in> set (drop (length (ssmCalls w)) (ssmCalls ?w')).
      \<forall>name v ty ov. cmd = PutParameterCommand name v ty ov \<longrightarrow>
        (\<exists>c \<in> set ?cs. name = parameterName c \<and> v = JSON_stringify c \<and>
           \<not> isRedacted (apiKey c))"
    using puts by blast
  have second: "\<forall>name. ssm ?w' name \<noteq> ssm w name \<longrightarrow>
      (\<exists>c \<in> set ?cs. ssm ?w' name = Some (JSON_stringify c) \<and> \<not> isRedacted (apiKey c))"
    using changed by blast
  have third: "(\<forall>c. parse (JSON_stringify c) = Some c) \<and>
      (\<forall>name v c. ssm w name = Some v \<and> parse v = Some c \<longrightarrow> \<not> isRedacted (apiKey c)) \<longrightarrow>
      (\<forall>name v c. ssm ?w' name = Some v \<and> parse v = Some c \<longrightarrow> \<not> isRedacted (apiKey c))"
    using kept by blast
  show ?thesis
    unfolding split_beta by (intro conjI first second third)
qed

theorem stored_values_are_not_masked_witness:
  "PutParameterCommand ''/pii/client-2/credentials''
       (JSON_stringify \<lparr>clientId = ''client-2'', apiKey = ''sk_test_def456uvw''\<rparr>) ''String'' True
     \<in> set (drop (length (ssmCalls storedWorld)) (ssmCalls (snd (sampleRun mixedFile storedWorld)))) \<and>
   \<lparr>clientId = ''client-2'', apiKey = ''sk_test_def456uvw''\<rparr> \<in> set (credentials mixedFile) \<and>
   \<not> isRedacted ''sk_test_def456uvw'' \<and>
   ssm (snd (sampleRun mixedFile storedWorld)) ''/pii/client-2/credentials'' =
     Some (JSON_stringify \<lparr>clientId = ''client-2'', apiKey = ''sk_test_def456uvw''\<rparr>) \<and>
   (\<forall>c. parseCompact (JSON_stringify c) = Some c) \<and>
   parseCompact (JSON_stringify \<lparr>clientId = ''client-2'', apiKey = ''sk_test_def456uvw''\<rparr>) =
     Some \<lparr>clientId = ''client-2'', apiKey = ''sk_test_def456uvw''\<rparr>"
proof -
  have sent: "PutParameterCommand ''/pii/client-2/credentials''
       (JSON_stringify \<lparr>clientId = ''client-2'', apiKey = ''sk_test_def456uvw''\<rparr>) ''String'' True
     \<in> set (drop (length (ssmCalls storedWorld)) (ssmCalls (snd (sampleRun mixedFile storedWorld))))"
    by (simp add: run_mixed_stored) (simp add: storedWorld_def worldWith_def emptyWorld_def)
  have entry: "\<lparr>clientId = ''client-2'', apiKey = ''sk_test_def456uvw''\<rparr> \<in> set (credentials mixedFile)"
    by (simp add: mixedFile_def)
  have plain: "\<not> isRedacted ''sk_test_def456uvw''"
    by (simp add: isRedacted_def startsWith_def)
  have held: "ssm (snd (sampleRun mixedFile storedWorld)) ''/pii/client-2/credentials'' =
     Some (JSON_stringify \<lparr>clientId = ''client-2'', apiKey = ''sk_test_def456uvw''\<rparr>)"
    by (simp add: run_mixed_stored)
  have lawful: "\<forall>c. parseCompact (JSON_stringify c) = Some c"
    by (simp add: parseCompact_JSON_stringify)
  show ?thesis
    using sent entry plain held lawful
      stored_values_are_not_masked [where parse = parseCompact and b = "''test-bucket''"
        and now = "''2025-10-24T08:30:00.000Z''" and f = mixedFile and key = "''test-key.json''"
        and w = storedWorld]
    by simp
qed

end
